theory Spec2Isabelle
  imports Main "HOL-Library.Word"
begin

unbundle bit_operations_syntax

section \<open>Machine integers, buffers and entity objects\<close>

text \<open>
  \<open>uint32_t\<close> values are 32-bit words, so their arithmetic wraps as in C++.
  \<open>int32_t\<close> values (the results of the link primitives) are integers; where the
  code multiplies one, the result is brought back into the 32-bit signed range by
  \<open>int32\<close>. Buffers of \<open>uint32_t\<close> are lists of words.
\<close>

type_synonym u32 = "32 word"

definition int32 :: "int \<Rightarrow> int" where
  "int32 k = sint (word_of_int k :: 32 word)"

text \<open>
  The \<open>Register\<close> and \<open>Command\<close> entity objects, as far as the two links use them:
  \<open>address()\<close>, \<open>data()\<close>, \<open>size()\<close>, \<open>setStatus()\<close>, \<open>setAddress()\<close> and
  \<open>opCode()\<close>. The data buffer of a register holds \<open>size()\<close> words.
\<close>

record Register =
  address :: u32
  data :: "u32 list"
  size_reg :: u32
  status :: u32

record Command =
  opCode :: u32

text \<open>
  \<open>memcpy (dst + d, src + s, nbytes)\<close> and \<open>memset (dst, c, nbytes)\<close> on word buffers.
  Every byte count in the two files is a multiple of four. Reading past the end of
  \<open>src\<close> or writing past the end of \<open>dst\<close> is undefined in C++; the theorems below
  assume buffers that are large enough.
\<close>

definition memcpy_words :: "u32 list \<Rightarrow> nat \<Rightarrow> u32 list \<Rightarrow> nat \<Rightarrow> nat \<Rightarrow> u32 list" where
  "memcpy_words dst d src s nbytes =
     take d dst @ take (nbytes div 4) (drop s src) @ drop (d + nbytes div 4) dst"

definition memset_words :: "u32 list \<Rightarrow> 8 word \<Rightarrow> nat \<Rightarrow> u32 list" where
  "memset_words dst c nbytes =
     replicate (nbytes div 4) (ucast c * 0x01010101) @ drop (nbytes div 4) dst"

text \<open>
  One call of the send primitive \<open>pgpcard_send (fd, buf, size, lane, vc)\<close>: the buffer
  it is given, the word count, and the routing. The words that go on the link are the
  first \<open>size\<close> words of the buffer.
\<close>

record send_call =
  txData :: "u32 list"
  txSize :: u32
  txLane :: u32
  txVc :: u32

definition wire_words :: "send_call \<Rightarrow> u32 list" where
  "wire_words c = take (unat (txSize c)) (txData c)"

text \<open>
  What one call of the receive primitive \<open>pgpcard_recv\<close> hands back: its return value
  (the number of words received, or a value \<open>\<le> 0\<close>), the receive buffer, and the
  lane, virtual channel and error flags it reports.
\<close>

record recv_result =
  rxRet :: int
  rxBuff :: "u32 list"
  rxLane :: u32
  rxVc :: u32
  rxEofe :: u32
  rxFifoErr :: u32
  rxLengthErr :: u32

section \<open>MultDestPgpMask: the synchronous link\<close>

datatype MultType =
  MultTypeRegisterWrite | MultTypeRegisterRead | MultTypeCommand | MultTypeData

text \<open>The object behind the untyped \<open>ptr\<close> argument of \<open>transmit\<close>.\<close>

datatype tx_ptr = RegisterPtr Register | CommandPtr Command | DataPtr "u32 list"

text \<open>
  The two register cases of the \<open>switch\<close> in \<open>MultDestPgpMask::transmit\<close>
  (\<open>MultTypeRegisterWrite\<close> falls through into \<open>MultTypeRegisterRead\<close> with
  \<open>isWrite\<close> set). \<open>txBuf\<close> is the member buffer \<open>txData_\<close> before the call.
\<close>

definition register_setup ::
  "bool \<Rightarrow> Register \<Rightarrow> u32 \<Rightarrow> u32 \<Rightarrow> u32 list \<Rightarrow> send_call" where
  "register_setup isWrite reg context config txBuf =
     (let lane = drop_bit 12 config AND 0xF;
          vc = drop_bit 8 config AND 0xF;
          b0 = txBuf[0 := context];
          b1 = b0[1 := (if isWrite then 0x40000000 else 0x00000000)];
          b2 = b1[1 := (b1 ! 1) OR (drop_bit 2 (address reg) AND 0x3FFFFFFF)]
      in if isWrite then
           (let b3 = memcpy_words b2 2 (data reg) 0 (unat (size_reg reg * 4));
                b4 = b3[unat (size_reg reg + 2) := 0]
            in \<lparr>txData = b4, txSize = size_reg reg + 3, txLane = lane, txVc = vc\<rparr>)
         else
           (let b3 = b2[2 := size_reg reg - 1];
                b4 = b3[3 := 0]
            in \<lparr>txData = b4, txSize = 4, txLane = lane, txVc = vc\<rparr>))"

text \<open>
  The whole \<open>switch\<close>: the frame and routing that \<open>transmit\<close> hands to the send
  primitive. \<open>None\<close> stands for a \<open>ptr\<close> that is not an object of the kind the
  \<open>type\<close> argument announces (the cast in the source is then undefined).
\<close>

fun tx_setup ::
  "MultType \<Rightarrow> tx_ptr \<Rightarrow> u32 \<Rightarrow> u32 \<Rightarrow> u32 \<Rightarrow> u32 list \<Rightarrow> send_call option" where
  "tx_setup MultTypeRegisterWrite (RegisterPtr reg) sizeB context config txBuf =
     Some (register_setup True reg context config txBuf)"
| "tx_setup MultTypeRegisterRead (RegisterPtr reg) sizeB context config txBuf =
     Some (register_setup False reg context config txBuf)"
| "tx_setup MultTypeCommand (CommandPtr cmd) sizeB context config txBuf =
     Some \<lparr>txData = txBuf[0 := 0, 1 := opCode cmd AND 0xFF, 2 := 0, 3 := 0],
           txSize = 4,
           txLane = drop_bit 20 config AND 0xF,
           txVc = drop_bit 16 config AND 0xF\<rparr>"
| "tx_setup MultTypeData (DataPtr d) sizeB context config txBuf =
     Some \<lparr>txData = d,
           txSize = sizeB div 4,
           txLane = drop_bit 28 config AND 0xF,
           txVc = drop_bit 24 config AND 0xF\<rparr>"
| "tx_setup _ _ _ _ _ _ = None"

text \<open>
  The send loop of \<open>transmit\<close>:
  \<^verbatim>\<open>ret = pgpcard_send(...); while (ret < 0) ret = pgpcard_send(...);\<close>
  The primitive is external: \<open>pgpcard_send n c\<close> is the value its call number \<open>n\<close>
  (counted from 0) returns when given the call \<open>c\<close>. \<open>send_retry\<close> is the loop after
  \<open>n\<close> calls, the last of which returned \<open>ret\<close>; it yields the final \<open>ret\<close> and the
  number of calls made, and \<open>None\<close> when the loop never ends.
\<close>

partial_function (option) send_retry ::
  "(nat \<Rightarrow> send_call \<Rightarrow> int) \<Rightarrow> send_call \<Rightarrow> nat \<Rightarrow> int \<Rightarrow> (int \<times> nat) option" where
  "send_retry pgpcard_send c n ret =
     (if ret < 0 then send_retry pgpcard_send c (Suc n) (pgpcard_send n c)
      else Some (ret, n))"

definition transmit_send :: "(nat \<Rightarrow> send_call \<Rightarrow> int) \<Rightarrow> send_call \<Rightarrow> (int \<times> nat) option" where
  "transmit_send pgpcard_send c =
     (case send_retry pgpcard_send c 1 (pgpcard_send 0 c) of
        None \<Rightarrow> None
      | Some (ret, n) \<Rightarrow> Some (if ret > 0 then int32 (ret * 4) else ret, n))"

text \<open>
  \<open>MultDestPgpMask::transmit\<close>: the returned value and the number of calls of the
  send primitive it took.
\<close>

definition transmit ::
  "(nat \<Rightarrow> send_call \<Rightarrow> int) \<Rightarrow> MultType \<Rightarrow> tx_ptr \<Rightarrow> u32 \<Rightarrow> u32 \<Rightarrow> u32 \<Rightarrow> u32 list
     \<Rightarrow> (int \<times> nat) option" where
  "transmit pgpcard_send type ptr sizeB context config txBuf =
     (case tx_setup type ptr sizeB context config txBuf of
        None \<Rightarrow> None
      | Some c \<Rightarrow> transmit_send pgpcard_send c)"

text \<open>
  The out-parameters \<open>*type\<close>, \<open>*ptr\<close> and \<open>*context\<close> of \<open>receive\<close>; \<open>*ptr\<close> is set
  to the receive buffer or to the member \<open>rxRegister_\<close>.
\<close>

datatype rx_ptr = RxDataPtr | RxRegisterPtr

record recv_out =
  outType :: MultType
  outPtr :: rx_ptr
  outContext :: u32

text \<open>
  The source word that \<open>receive\<close> builds from the lane and virtual channel of a
  received frame:
  \<^verbatim>\<open>dataSource = (lane << 28) & 0xF0000000; dataSource += (vc << 24) & 0x0F000000;\<close>
\<close>

definition rx_dataSource :: "u32 \<Rightarrow> u32 \<Rightarrow> u32" where
  "rx_dataSource lane vc =
     (let dataSource0 = push_bit 28 lane AND 0xF0000000
      in dataSource0 + (push_bit 24 vc AND 0x0F000000))"

text \<open>
  \<open>MultDestPgpMask::receive\<close>, given what \<open>pgpcard_recv\<close> handed back. \<open>isDataSource\<close>
  is the inherited \<open>MultDest::isDataSource\<close>. The result is the return value, the
  out-parameters and the member \<open>rxRegister_\<close> after the call.
\<close>

definition receive ::
  "(u32 \<Rightarrow> bool) \<Rightarrow> recv_result \<Rightarrow> recv_out \<Rightarrow> Register \<Rightarrow> int \<times> recv_out \<times> Register" where
  "receive isDataSource r out rxRegister =
     (if rxRet r = 0 then (0, out, rxRegister)
      else if rxRet r < 4 \<or> rxEofe r \<noteq> 0 \<or> rxFifoErr r \<noteq> 0 \<or> rxLengthErr r \<noteq> 0
      then (- 1, out, rxRegister)
      else
        (let dataSource = rx_dataSource (rxLane r) (rxVc r)
         in if isDataSource dataSource
            then (int32 (rxRet r * 4),
                  \<lparr>outType = MultTypeData, outPtr = RxDataPtr, outContext = 0\<rparr>,
                  rxRegister)
            else
              (let reg1 = rxRegister\<lparr>address := push_bit 2 (rxBuff r ! 1)\<rparr>;
                   out1 = \<lparr>outType = (if rxBuff r ! 1 AND 0x40000000 \<noteq> 0
                                       then MultTypeRegisterWrite else MultTypeRegisterRead),
                           outPtr = RxRegisterPtr,
                           outContext = rxBuff r ! 0\<rparr>
               in if rxRet r - 3 > sint (size_reg reg1)
                  then (- 1, out1, reg1)
                  else (int32 (rxRet r * 4), out1,
                        reg1\<lparr>data := memcpy_words (data reg1) 0 (rxBuff r) 2
                                         (nat ((rxRet r - 3) * 4)),
                             status := rxBuff r ! nat (rxRet r - 1)\<rparr>))))"

section \<open>PgpCardG3Link: the asynchronous link\<close>

text \<open>
  The members of the link that the receive thread and the transmit thread work on.
  A \<open>Data\<close> object in the queue is the copy of the received words it is built from.
\<close>

record PgpCardG3Link =
  errorCount :: u32
  unexpCount :: u32
  dataSource :: u32
  dataQueue :: "u32 list list"
  regBuff :: "u32 list"
  regReqEntry :: Register
  regReqWrite :: bool
  regReqCnt :: u32
  regRespCnt :: u32
  cmdReqEntry :: Command
  cmdReqCnt :: u32
  cmdRespCnt :: u32
  runReqEntry :: Command
  runReqCnt :: u32
  dataReqEntry :: "u32 list"
  dataReqLength :: u32
  dataReqAddr :: u32
  dataReqCnt :: u32
  dataRespCnt :: u32

subsection \<open>Receive thread\<close>

text \<open>The data-packet test of \<open>rxHandler\<close> (the four masks and the condition).\<close>

definition isDataFrame :: "u32 \<Rightarrow> u32 \<Rightarrow> u32 \<Rightarrow> bool" where
  "isDataFrame dataSrc lane vc =
     (let vcMaskRx = push_bit (unat vc) (0x1 :: u32);
          laneMaskRx = push_bit (unat lane) (0x1 :: u32);
          vcMask = dataSrc AND 0xF;
          laneMask = drop_bit 4 dataSrc AND 0xFF
      in vcMaskRx AND vcMask \<noteq> 0 \<and> laneMaskRx AND laneMask \<noteq> 0)"

text \<open>
  The \<open>else\<close> branch of \<open>rxHandler\<close>: a frame that is not a data packet is compared
  with the outstanding register request. \<open>memcmp (rxBuff, regBuff_, 8) == 0\<close> compares
  the first two words.
\<close>

definition correlate :: "recv_result \<Rightarrow> PgpCardG3Link \<Rightarrow> PgpCardG3Link" where
  "correlate r s =
     (if take 2 (rxBuff r) = take 2 (regBuff s)
         \<and> (word_of_int (rxRet r - 3) :: u32) = size_reg (regReqEntry s)
      then
        (let e = regReqEntry s;
             nbytes = unat (size_reg e * 4);
             st = rxBuff r ! nat (rxRet r - 1);
             e1 = (if \<not> regReqWrite s
                   then (if st = 0
                         then e\<lparr>data := memcpy_words (data e) 0 (rxBuff r) 2 nbytes\<rparr>
                         else e\<lparr>data := memset_words (data e) 0xFF nbytes\<rparr>)
                   else e)
         in s\<lparr>regReqEntry := e1\<lparr>status := st\<rparr>, regRespCnt := regRespCnt s + 1\<rparr>)
      else s\<lparr>unexpCount := unexpCount s + 1\<rparr>)"

text \<open>
  One pass of the loop of \<open>rxHandler\<close> in which \<open>select\<close> reports the descriptor
  readable and \<open>pgpcard_recv\<close> hands back \<open>r\<close>.
\<close>

definition rxHandler_step :: "recv_result \<Rightarrow> PgpCardG3Link \<Rightarrow> PgpCardG3Link" where
  "rxHandler_step r s =
     (if rxRet r \<le> 0 then s
      else if rxRet r < 4 \<or> rxEofe r \<noteq> 0 \<or> rxFifoErr r \<noteq> 0 \<or> rxLengthErr r \<noteq> 0
      then s\<lparr>errorCount := errorCount s + 1\<rparr>
      else if isDataFrame (dataSource s) (rxLane r) (rxVc r)
      then s\<lparr>dataQueue := dataQueue s @ [take (nat (rxRet r)) (rxBuff r)]\<rparr>
      else correlate r s)"

subsection \<open>Transmit thread\<close>

text \<open>The local variables of \<open>ioHandler\<close> that live across passes of its loop.\<close>

record io_locals =
  lastReqCnt :: u32
  lastCmdCnt :: u32
  lastRunCnt :: u32
  lastDataCnt :: u32

text \<open>
  The bit scan \<^verbatim>\<open>while (bits >>= 1) n++;\<close> of the data branch.
\<close>

function bitScan :: "u32 \<Rightarrow> u32 \<Rightarrow> u32" where
  "bitScan bits n =
     (let b = drop_bit 1 bits in if b \<noteq> 0 then bitScan b (n + 1) else n)"
  by pat_completeness auto
termination
proof (relation "measure (\<lambda>(bits, n). unat bits)")
  show "wf (measure (\<lambda>(bits :: u32, n :: u32). unat bits))"
    by simp
next
  fix bits n :: u32 and b :: u32
  assume b: "b = drop_bit 1 bits" and nz: "b \<noteq> 0"
  have "unat b = unat bits div 2"
    by (simp add: b drop_bit_eq_div unat_div)
  moreover have "unat b \<noteq> 0"
    using nz by (simp add: unat_eq_0)
  ultimately have "unat b < unat bits"
    by linarith
  then show "((b, n + 1), (bits, n)) \<in> measure (\<lambda>(bits, n). unat bits)"
    by simp
qed

text \<open>
  The frame and routing built by each branch of the \<open>if\<close> ladder of \<open>ioHandler\<close>.
  The command and run-control buffers are locals of four words.
\<close>

definition opCode_call :: "Command \<Rightarrow> send_call" where
  "opCode_call cmd =
     \<lparr>txData = [0, opCode cmd AND 0xFF, 0, 0],
      txSize = 4,
      txLane = drop_bit 12 (opCode cmd) AND 0xF,
      txVc = drop_bit 8 (opCode cmd) AND 0xF\<rparr>"

definition reg_call :: "bool \<Rightarrow> Register \<Rightarrow> u32 list \<Rightarrow> send_call" where
  "reg_call isWrite reg buf =
     (let b0 = buf[0 := 0];
          b1 = b0[1 := (if isWrite then 0x40000000 else 0x00000000)];
          b2 = b1[1 := (b1 ! 1) OR (address reg AND 0x00FFFFFF)];
          b4 = (if isWrite
                then (memcpy_words b2 2 (data reg) 0 (unat (size_reg reg * 4)))
                       [unat (size_reg reg + 2) := 0]
                else b2[2 := size_reg reg - 1, 3 := 0])
      in \<lparr>txData = b4,
          txSize = (if isWrite then size_reg reg + 3 else 4),
          txLane = drop_bit 28 (address reg) AND 0xF,
          txVc = drop_bit 24 (address reg) AND 0xF\<rparr>)"

definition data_call :: "u32 list \<Rightarrow> u32 \<Rightarrow> u32 \<Rightarrow> send_call" where
  "data_call entry len addr =
     (let dataLaneBits = drop_bit 4 addr AND 0xF;
          dataVcBits = addr AND 0xF
      in \<lparr>txData = entry,
          txSize = len,
          txLane = bitScan dataLaneBits 0,
          txVc = bitScan dataVcBits 0\<rparr>)"

text \<open>
  One pass of the loop of \<open>ioHandler\<close>. \<open>sendRet\<close> is the value \<open>pgpcard_send\<close>
  returns in this pass; the source calls the primitive as a statement and does not
  look at it. The result is the link, the locals, and the call of the send primitive
  made in this pass (\<open>None\<close> when the pass only waits).
\<close>

definition ioHandler_cycle ::
  "int \<Rightarrow> PgpCardG3Link \<Rightarrow> io_locals \<Rightarrow> PgpCardG3Link \<times> io_locals \<times> send_call option" where
  "ioHandler_cycle sendRet s l =
     (if lastRunCnt l \<noteq> runReqCnt s then
        (s, l\<lparr>lastRunCnt := runReqCnt s\<rparr>, Some (opCode_call (runReqEntry s)))
      else if lastReqCnt l \<noteq> regReqCnt s then
        (let c = reg_call (regReqWrite s) (regReqEntry s) (regBuff s)
         in (s\<lparr>regBuff := txData c\<rparr>, l\<lparr>lastReqCnt := regReqCnt s\<rparr>, Some c))
      else if lastCmdCnt l \<noteq> cmdReqCnt s then
        (s\<lparr>cmdRespCnt := cmdRespCnt s + 1\<rparr>, l\<lparr>lastCmdCnt := cmdReqCnt s\<rparr>,
         Some (opCode_call (cmdReqEntry s)))
      else if lastDataCnt l \<noteq> dataReqCnt s then
        (s\<lparr>dataRespCnt := dataRespCnt s + 1\<rparr>, l\<lparr>lastDataCnt := dataReqCnt s\<rparr>,
         Some (data_call (dataReqEntry s) (dataReqLength s) (dataReqAddr s)))
      else (s, l, None))"

section \<open>Specification-side definitions and example inputs\<close>

text \<open>
  Modelled from the spec: the packing of a Scheme A configuration word. The repository
  only unpacks the word (in \<open>transmit\<close>); the layout is the one the spec and the
  header of \<open>MultDestPgpMask.cpp\<close> give: bits 7:0 index, 11:8 register vc, 15:12
  register lane, 19:16 command vc, 23:20 command lane, 27:24 data vc, 31:28 data lane.
\<close>

definition linkConfig :: "u32 \<Rightarrow> u32 \<Rightarrow> u32 \<Rightarrow> u32 \<Rightarrow> u32 \<Rightarrow> u32 \<Rightarrow> u32 \<Rightarrow> u32" where
  "linkConfig idx regLane regVc cmdLane cmdVc dataLane dataVc =
     (idx AND 0xFF) OR push_bit 8 regVc OR push_bit 12 regLane
       OR push_bit 16 cmdVc OR push_bit 20 cmdLane
       OR push_bit 24 dataVc OR push_bit 28 dataLane"

text \<open>The routing of a call of the send primitive.\<close>

definition route :: "send_call option \<Rightarrow> (u32 \<times> u32) option" where
  "route c = map_option (\<lambda>c. (txLane c, txVc c)) c"

text \<open>
  Concrete inputs for the examples: an error-free frame of the given words received on
  a lane and virtual channel, and a link at rest with a given data-source mask.
\<close>

definition frame_lv :: "u32 \<Rightarrow> u32 \<Rightarrow> u32 list \<Rightarrow> recv_result" where
  "frame_lv lane vc ws =
     \<lparr>rxRet = int (length ws), rxBuff = ws, rxLane = lane, rxVc = vc,
      rxEofe = 0, rxFifoErr = 0, rxLengthErr = 0\<rparr>"

definition idle_link :: "u32 \<Rightarrow> PgpCardG3Link" where
  "idle_link dsrc =
     \<lparr>errorCount = 0, unexpCount = 0, dataSource = dsrc, dataQueue = [],
      regBuff = [0, 0, 0, 0, 0, 0, 0, 0],
      regReqEntry = \<lparr>address = 0, data = [0], size_reg = 1, status = 0\<rparr>,
      regReqWrite = False, regReqCnt = 0, regRespCnt = 0,
      cmdReqEntry = \<lparr>opCode = 0\<rparr>, cmdReqCnt = 0, cmdRespCnt = 0,
      runReqEntry = \<lparr>opCode = 0\<rparr>, runReqCnt = 0,
      dataReqEntry = [], dataReqLength = 0, dataReqAddr = 0,
      dataReqCnt = 0, dataRespCnt = 0\<rparr>"

text \<open>
  A link with one register read of two words at address \<open>0x1000\<close> outstanding:
  the request header is in \<open>regBuff_\<close>.
\<close>

definition read_link :: "PgpCardG3Link" where
  "read_link =
     (idle_link 0x041)
       \<lparr>regBuff := [0, 0x00001000, 1, 0, 0, 0, 0, 0],
        regReqEntry := \<lparr>address = 0x00001000, data = [0, 0], size_reg = 2, status = 0\<rparr>,
        regReqCnt := 1\<rparr>"

text \<open>
  Inputs for the examples of the synchronous \<open>receive\<close>: a receive register object
  of four words, out-parameters before the call, and a link without data sources.
\<close>

definition rx_reg4 :: Register where
  "rx_reg4 = \<lparr>address = 0, data = [0, 0, 0, 0], size_reg = 4, status = 0\<rparr>"

definition out0 :: recv_out where
  "out0 = \<lparr>outType = MultTypeData, outPtr = RxDataPtr, outContext = 0\<rparr>"

definition no_data_source :: "u32 \<Rightarrow> bool" where
  "no_data_source src = False"

text \<open>
  The register of the write example (address \<open>0x1000\<close>, two data words), a link on
  which that write is pending, and the locals of the transmit thread at start.
\<close>

definition reg_1000 :: Register where
  "reg_1000 = \<lparr>address = 0x00001000, data = [0xAAAA, 0xBBBB], size_reg = 2, status = 0\<rparr>"

definition write_link :: PgpCardG3Link where
  "write_link = (idle_link 0x041)\<lparr>regReqEntry := reg_1000, regReqWrite := True, regReqCnt := 1\<rparr>"

definition io_idle :: io_locals where
  "io_idle = \<lparr>lastReqCnt = 0, lastCmdCnt = 0, lastRunCnt = 0, lastDataCnt = 0\<rparr>"

text \<open>
  A send primitive that fails three times and then sends the whole frame.
\<close>

definition flaky_send :: "nat \<Rightarrow> send_call \<Rightarrow> int" where
  "flaky_send n c = (if n < 3 then - 1 else uint (txSize c))"

text \<open>
  The scheduler as the specification describes it: the four traffic classes in
  priority order, the request counter and the last-serviced value of a class, the
  classes with a pending request (highest priority first), and the frame the transmit
  thread builds for a class. \<open>busy_link\<close> has a register write, a command and a data
  request pending at once.
\<close>

datatype txClass = RunControl | RegisterTx | CommandTx | RawData

fun reqCnt :: "PgpCardG3Link \<Rightarrow> txClass \<Rightarrow> u32" where
  "reqCnt s RunControl = runReqCnt s"
| "reqCnt s RegisterTx = regReqCnt s"
| "reqCnt s CommandTx = cmdReqCnt s"
| "reqCnt s RawData = dataReqCnt s"

fun lastCnt :: "io_locals \<Rightarrow> txClass \<Rightarrow> u32" where
  "lastCnt l RunControl = lastRunCnt l"
| "lastCnt l RegisterTx = lastReqCnt l"
| "lastCnt l CommandTx = lastCmdCnt l"
| "lastCnt l RawData = lastDataCnt l"

definition pending :: "PgpCardG3Link \<Rightarrow> io_locals \<Rightarrow> txClass list" where
  "pending s l =
     filter (\<lambda>c. lastCnt l c \<noteq> reqCnt s c) [RunControl, RegisterTx, CommandTx, RawData]"

fun class_call :: "PgpCardG3Link \<Rightarrow> txClass \<Rightarrow> send_call" where
  "class_call s RunControl = opCode_call (runReqEntry s)"
| "class_call s RegisterTx = reg_call (regReqWrite s) (regReqEntry s) (regBuff s)"
| "class_call s CommandTx = opCode_call (cmdReqEntry s)"
| "class_call s RawData = data_call (dataReqEntry s) (dataReqLength s) (dataReqAddr s)"

definition busy_link :: PgpCardG3Link where
  "busy_link = write_link\<lparr>cmdReqCnt := 1, dataReqCnt := 1\<rparr>"

section \<open>Scheme A routing\<close>

lemma nibble_take_bit: "(x::u32) < 16 \<Longrightarrow> take_bit 4 x = x"
  using less_mask_eq [of x 4] by (simp add: take_bit_eq_mask)

lemma mask_consts:
  "(0xF :: u32) = mask 4" "(0xFF :: u32) = mask 8"
  "(0xF0000000 :: u32) = push_bit 28 (mask 4)"
  "(0x0F000000 :: u32) = push_bit 24 (mask 4)"
  by (simp_all add: mask_eq_exp_minus_1 push_bit_eq_mult)

lemma nibble_same:
  fixes x :: u32
  assumes "j + 4 \<le> 32"
  shows "take_bit 4 (drop_bit j (push_bit j (take_bit 4 x))) = take_bit 4 x"
  by (rule bit_word_eqI) (use assms in \<open>auto simp add: bit_simps\<close>)

lemma nibble_above:
  fixes y :: u32
  assumes "k + 4 \<le> j"
  shows "take_bit 4 (drop_bit k (push_bit j y)) = 0"
  by (rule bit_word_eqI) (use assms in \<open>auto simp add: bit_simps\<close>)

lemma nibble_below:
  fixes x :: u32
  assumes "j + m \<le> k"
  shows "drop_bit k (push_bit j (take_bit m x)) = 0"
  by (rule bit_word_eqI) (use assms in \<open>auto simp add: bit_simps\<close>)

lemma linkConfig_fields:
  fixes idx rl rv cl cv dl dv :: u32
  defines "cfg \<equiv> linkConfig idx (take_bit 4 rl) (take_bit 4 rv) (take_bit 4 cl) (take_bit 4 cv)
                    (take_bit 4 dl) (take_bit 4 dv)"
  shows "drop_bit 12 cfg AND 0xF = take_bit 4 rl"
    and "drop_bit 8 cfg AND 0xF = take_bit 4 rv"
    and "drop_bit 20 cfg AND 0xF = take_bit 4 cl"
    and "drop_bit 16 cfg AND 0xF = take_bit 4 cv"
    and "drop_bit 28 cfg AND 0xF = take_bit 4 dl"
    and "drop_bit 24 cfg AND 0xF = take_bit 4 dv"
  unfolding cfg_def linkConfig_def mask_consts
  by (simp_all flip: take_bit_eq_mask add: drop_bit_take_bit nibble_same nibble_above nibble_below)

lemma rx_dataSource_or:
  "rx_dataSource lane vc = push_bit 28 (take_bit 4 lane) OR push_bit 24 (take_bit 4 vc)"
proof -
  have a: "push_bit 28 lane AND (0xF0000000::u32) = push_bit 28 (take_bit 4 lane)"
    unfolding mask_consts
    by (rule bit_word_eqI) (auto simp add: bit_simps)
  have b: "push_bit 24 vc AND (0x0F000000::u32) = push_bit 24 (take_bit 4 vc)"
    unfolding mask_consts
    by (rule bit_word_eqI) (auto simp add: bit_simps)
  have "push_bit 28 (take_bit 4 lane) + push_bit 24 (take_bit 4 vc)
      = push_bit 28 (take_bit 4 lane) OR push_bit 24 (take_bit 4 vc)"
    by (rule disjunctive_add_eq_or, rule bit_word_eqI) (auto simp add: bit_simps)
  then show ?thesis
    by (simp only: rx_dataSource_def Let_def a b)
qed

lemma rx_dataSource_fields:
  "drop_bit 28 (rx_dataSource lane vc) AND 0xF = take_bit 4 lane"
  "drop_bit 24 (rx_dataSource lane vc) AND 0xF = take_bit 4 vc"
  unfolding rx_dataSource_or mask_consts
  by (simp_all flip: take_bit_eq_mask add: nibble_same nibble_above nibble_below)

lemma register_setup_route:
  "txLane (register_setup w reg context config txBuf) = drop_bit 12 config AND 0xF"
  "txVc (register_setup w reg context config txBuf) = drop_bit 8 config AND 0xF"
  by (simp_all add: register_setup_def Let_def)

lemma route_tx_setup:
  "route (tx_setup MultTypeRegisterWrite (RegisterPtr reg) sizeB context config txBuf)
     = Some (drop_bit 12 config AND 0xF, drop_bit 8 config AND 0xF)"
  "route (tx_setup MultTypeRegisterRead (RegisterPtr reg) sizeB context config txBuf)
     = Some (drop_bit 12 config AND 0xF, drop_bit 8 config AND 0xF)"
  "route (tx_setup MultTypeCommand (CommandPtr cmd) sizeB context config txBuf)
     = Some (drop_bit 20 config AND 0xF, drop_bit 16 config AND 0xF)"
  "route (tx_setup MultTypeData (DataPtr d) sizeB context config txBuf)
     = Some (drop_bit 28 config AND 0xF, drop_bit 24 config AND 0xF)"
  by (simp_all add: route_def register_setup_route)

text \<open>
  C8. Packing lanes and virtual channels below 16 into the nibbles of a Scheme A
  configuration word (register: lane 15:12, vc 11:8; command: lane 23:20, vc 19:16;
  data: lane 31:28, vc 27:24) and handing the word to \<open>transmit\<close> routes each class
  of frame to exactly the lane and virtual channel that were packed. The same holds
  for the data nibbles that \<open>receive\<close> packs from a received lane and vc.
\<close>

theorem scheme_A_routing_roundtrip:
  fixes idx regLane regVc cmdLane cmdVc dataLane dataVc :: u32
  assumes "regLane < 16" "regVc < 16" "cmdLane < 16" "cmdVc < 16" "dataLane < 16" "dataVc < 16"
  defines "config \<equiv> linkConfig idx regLane regVc cmdLane cmdVc dataLane dataVc"
  shows "route (tx_setup MultTypeRegisterWrite (RegisterPtr reg) sizeB ctx config txBuf)
           = Some (regLane, regVc)
       \<and> route (tx_setup MultTypeRegisterRead (RegisterPtr reg) sizeB ctx config txBuf)
           = Some (regLane, regVc)
       \<and> route (tx_setup MultTypeCommand (CommandPtr cmd) sizeB ctx config txBuf)
           = Some (cmdLane, cmdVc)
       \<and> route (tx_setup MultTypeData (DataPtr d) sizeB ctx config txBuf)
           = Some (dataLane, dataVc)
       \<and> route (tx_setup MultTypeData (DataPtr d) sizeB ctx
                   (rx_dataSource dataLane dataVc) txBuf)
           = Some (dataLane, dataVc)"
proof -
  have tb: "take_bit 4 regLane = regLane" "take_bit 4 regVc = regVc"
    "take_bit 4 cmdLane = cmdLane" "take_bit 4 cmdVc = cmdVc"
    "take_bit 4 dataLane = dataLane" "take_bit 4 dataVc = dataVc"
    using assms(1-6) by (simp_all only: nibble_take_bit)
  note f = linkConfig_fields [of idx regLane regVc cmdLane cmdVc dataLane dataVc,
      unfolded tb, folded config_def]
  note g = rx_dataSource_fields [of dataLane dataVc, unfolded tb]
  show ?thesis
    by (simp only: route_tx_setup f g simp_thms)
qed

theorem scheme_A_routing_roundtrip_witness:
  "route (tx_setup MultTypeRegisterWrite
            (RegisterPtr \<lparr>address = 0, data = [5], size_reg = 1, status = 0\<rparr>) 8 9
            (linkConfig 7 2 1 3 0 5 2) [0, 0, 0, 0]) = Some (2, 1)
   \<and> route (tx_setup MultTypeCommand (CommandPtr \<lparr>opCode = 3\<rparr>) 8 9
            (linkConfig 7 2 1 3 0 5 2) [0, 0, 0, 0]) = Some (3, 0)
   \<and> route (tx_setup MultTypeData (DataPtr [1, 2]) 8 9
            (linkConfig 7 2 1 3 0 5 2) [0, 0, 0, 0]) = Some (5, 2)
   \<and> route (tx_setup MultTypeData (DataPtr [1, 2]) 8 9
            (rx_dataSource 5 2) [0, 0, 0, 0]) = Some (5, 2)"
  using scheme_A_routing_roundtrip [where regLane = 2 and regVc = 1 and cmdLane = 3
      and cmdVc = 0 and dataLane = 5 and dataVc = 2 and idx = 7
      and reg = "\<lparr>address = 0, data = [5], size_reg = 1, status = 0\<rparr>"
      and sizeB = 8 and ctx = 9 and txBuf = "[0, 0, 0, 0]"
      and cmd = "\<lparr>opCode = 3\<rparr>" and d = "[1, 2]"]
  by simp

section \<open>Classification of received frames\<close>


lemma onehot_meets_mask:
  fixes m :: u32
  shows "(push_bit n 1 AND m \<noteq> 0) = bit m n"
  by (simp add: bit_iff_and_push_bit_not_eq_0 and.commute)

lemma isDataFrame_bits:
  "isDataFrame dsrc lane vc \<longleftrightarrow>
     unat vc < 4 \<and> bit dsrc (unat vc) \<and> unat lane < 8 \<and> bit dsrc (4 + unat lane)"
  unfolding isDataFrame_def Let_def onehot_meets_mask mask_consts
  by (auto simp add: bit_simps simp flip: take_bit_eq_mask)

text \<open>
  C6. A received frame that passes the length and error-flag checks is queued as a
  data frame exactly when the one-hot bit of its vc meets the vc mask (bits 0 to 3 of
  \<open>dataSource_\<close>) and the one-hot bit of its lane meets the lane mask (bits 4 to 11);
  otherwise it goes to the correlator, whatever its words are. With vc mask 0001 and
  lane mask 00000100, lane 2 vc 0 is data and lane 2 vc 1 is control. The shifts
  \<open>1 << vc\<close> and \<open>1 << lane\<close> are defined for counts below 32.
\<close>

theorem rx_classification:
  assumes "4 \<le> rxRet r" "rxEofe r = 0" "rxFifoErr r = 0" "rxLengthErr r = 0"
    and "unat (rxLane r) < 32" "unat (rxVc r) < 32"
  shows "rxHandler_step r s =
           (if unat (rxVc r) < 4 \<and> bit (dataSource s) (unat (rxVc r))
               \<and> unat (rxLane r) < 8 \<and> bit (dataSource s) (4 + unat (rxLane r))
            then s\<lparr>dataQueue := dataQueue s @ [take (nat (rxRet r)) (rxBuff r)]\<rparr>
            else correlate r s)
       \<and> (dataSource s = 0x041 \<and> rxLane r = 2 \<and> rxVc r = 0 \<longrightarrow>
            rxHandler_step r s = s\<lparr>dataQueue := dataQueue s @ [take (nat (rxRet r)) (rxBuff r)]\<rparr>)
       \<and> (dataSource s = 0x041 \<and> rxLane r = 2 \<and> rxVc r = 1 \<longrightarrow>
            rxHandler_step r s = correlate r s)"
proof -
  have step: "rxHandler_step r s =
      (if isDataFrame (dataSource s) (rxLane r) (rxVc r)
       then s\<lparr>dataQueue := dataQueue s @ [take (nat (rxRet r)) (rxBuff r)]\<rparr>
       else correlate r s)"
    using assms(1-4) by (simp add: rxHandler_step_def)
  have ex1: "isDataFrame 0x041 2 0"
    by (simp add: isDataFrame_def)
  have ex2: "\<not> isDataFrame 0x041 2 1"
    by (simp add: isDataFrame_def)
  show ?thesis
    using ex1 ex2 by (auto simp add: step isDataFrame_bits)
qed

theorem rx_classification_witness:
  "rxHandler_step (frame_lv 2 0 [7, 7, 7, 7]) (idle_link 0x041)
     = (idle_link 0x041)\<lparr>dataQueue := [[7, 7, 7, 7]]\<rparr>
   \<and> rxHandler_step (frame_lv 2 1 [7, 7, 7, 7]) (idle_link 0x041)
     = correlate (frame_lv 2 1 [7, 7, 7, 7]) (idle_link 0x041)"
  using rx_classification [of "frame_lv 2 0 [7, 7, 7, 7]" "idle_link 0x041"]
    rx_classification [of "frame_lv 2 1 [7, 7, 7, 7]" "idle_link 0x041"]
  by (simp add: frame_lv_def idle_link_def)

section \<open>The receive correlator\<close>

lemma unat_times4:
  fixes w :: u32
  assumes "unat w < 2 ^ 30"
  shows "unat (w * 4) = 4 * unat w"
proof -
  have "unat (w * 4) = unat w * unat (4 :: u32)"
    by (rule iffD1 [OF unat_mult_lem]) (use assms in simp)
  then show ?thesis by simp
qed

lemma replicate_two: "replicate 2 x = [x, x]"
  by (simp add: numeral_2_eq_2)

lemma memcpy_words_all:
  assumes "length dst = n"
  shows "memcpy_words dst 0 src k (4 * n) = take n (drop k src)"
  using assms by (simp add: memcpy_words_def)

lemma memset_words_all:
  assumes "length dst = n"
  shows "memset_words dst 0xFF (4 * n) = replicate n 0xFFFFFFFF"
  using assms by (simp add: memset_words_def)

lemma size_match:
  fixes sz :: u32
  assumes "3 \<le> k" "k < 2 ^ 31"
  shows "(word_of_int (k - 3) :: u32) = sz \<longleftrightarrow> k - 3 = uint sz"
proof -
  have "uint (word_of_int (k - 3) :: u32) = (k - 3) mod 2 ^ 32"
    by (simp only: uint_word_of_int) simp
  also have "\<dots> = k - 3"
    using assms by simp
  finally have u: "uint (word_of_int (k - 3) :: u32) = k - 3" .
  show ?thesis
  proof
    assume "(word_of_int (k - 3) :: u32) = sz"
    with u show "k - 3 = uint sz" by (simp only:)
  next
    assume "k - 3 = uint sz"
    then have "(word_of_int (k - 3) :: u32) = word_of_int (uint sz)" by (simp only:)
    then show "(word_of_int (k - 3) :: u32) = sz" by (simp only: word_of_int_uint)
  qed
qed

lemma correlate_on_match:
  assumes hdr: "take 2 (rxBuff r) = take 2 (regBuff s)"
    and sz: "rxRet r - 3 = uint (size_reg (regReqEntry s))"
    and buf: "length (data (regReqEntry s)) = unat (size_reg (regReqEntry s))"
    and small: "rxRet r < 2 ^ 30"
  shows "correlate r s =
     s\<lparr>regReqEntry :=
          (regReqEntry s)
            \<lparr>data := (if regReqWrite s then data (regReqEntry s)
                       else if rxBuff r ! nat (rxRet r - 1) = 0
                       then take (nat (rxRet r - 3)) (drop 2 (rxBuff r))
                       else replicate (unat (size_reg (regReqEntry s))) 0xFFFFFFFF),
             status := rxBuff r ! nat (rxRet r - 1)\<rparr>,
        regRespCnt := regRespCnt s + 1\<rparr>"
proof -
  let ?e = "regReqEntry s"
  let ?n = "unat (size_reg ?e)"
  have n: "?n = nat (rxRet r - 3)"
    by (simp only: unat_eq_nat_uint sz)
  have "?n < 2 ^ 30"
    using small n by simp
  then have bytes: "unat (size_reg ?e * 4) = 4 * ?n"
    by (rule unat_times4)
  have wi: "(word_of_int (rxRet r - 3) :: u32) = size_reg ?e"
    by (simp add: sz)
  have cp: "memcpy_words (data ?e) 0 (rxBuff r) 2 (4 * ?n) = take ?n (drop 2 (rxBuff r))"
    by (rule memcpy_words_all [OF buf])
  have st: "memset_words (data ?e) 0xFF (4 * ?n) = replicate ?n 0xFFFFFFFF"
    by (rule memset_words_all [OF buf])
  have cond: "(take 2 (rxBuff r) = take 2 (regBuff s)
      \<and> (word_of_int (rxRet r - 3) :: u32) = size_reg ?e) = True"
    by (simp only: hdr wi simp_thms)
  show ?thesis
    unfolding correlate_def cond if_True Let_def bytes cp st
    by (simp add: n)
qed

text \<open>
  C2. A control frame that fits the receive buffer, whose first two words equal the
  header of the last register request and whose length minus 3 equals the size of the
  outstanding request: the status word (the last received word) is stored in the
  request, the register response counter advances by 1, and for a read the data
  buffer becomes the payload words when the status is zero and is filled with
  \<open>0xFFFFFFFF\<close> words (bytes \<open>0xFF\<close>) otherwise. The receive buffer has fewer than
  \<open>2^30\<close> words, so that byte counts fit 32 bits.
\<close>

theorem correlator_match:
  assumes "4 \<le> rxRet r" "rxRet r \<le> int (length (rxBuff r))" "length (rxBuff r) < 2 ^ 30"
    and "rxEofe r = 0" "rxFifoErr r = 0" "rxLengthErr r = 0"
    and "\<not> isDataFrame (dataSource s) (rxLane r) (rxVc r)"
    and "take 2 (rxBuff r) = take 2 (regBuff s)"
    and "rxRet r - 3 = uint (size_reg (regReqEntry s))"
    and "length (data (regReqEntry s)) = unat (size_reg (regReqEntry s))"
  shows "status (regReqEntry (rxHandler_step r s)) = last (take (nat (rxRet r)) (rxBuff r))
       \<and> regRespCnt (rxHandler_step r s) = regRespCnt s + 1
       \<and> (\<not> regReqWrite s \<and> last (take (nat (rxRet r)) (rxBuff r)) = 0 \<longrightarrow>
            data (regReqEntry (rxHandler_step r s))
              = take (unat (size_reg (regReqEntry s))) (drop 2 (rxBuff r)))
       \<and> (\<not> regReqWrite s \<and> last (take (nat (rxRet r)) (rxBuff r)) \<noteq> 0 \<longrightarrow>
            data (regReqEntry (rxHandler_step r s))
              = replicate (unat (size_reg (regReqEntry s))) 0xFFFFFFFF)
       \<and> length (data (regReqEntry (rxHandler_step r s))) = unat (size_reg (regReqEntry s))"
proof -
  have "int (length (rxBuff r)) < 2 ^ 30"
    using assms(3) by simp
  then have small: "rxRet r < 2 ^ 30"
    using assms(2) by linarith
  have step: "rxHandler_step r s = correlate r s"
    using assms(1,4-7) by (simp add: rxHandler_step_def)
  have lst: "last (take (nat (rxRet r)) (rxBuff r)) = rxBuff r ! nat (rxRet r - 1)"
  proof -
    have "take (nat (rxRet r)) (rxBuff r) \<noteq> []"
      using assms(1,2) by auto
    moreover have "length (take (nat (rxRet r)) (rxBuff r)) = nat (rxRet r)"
      using assms(2) by simp
    ultimately show ?thesis
      using assms(1,2) by (simp add: last_conv_nth nat_diff_distrib)
  qed
  have n: "nat (rxRet r - 3) = unat (size_reg (regReqEntry s))"
    by (simp only: unat_eq_nat_uint assms(9))
  have len: "length (take (unat (size_reg (regReqEntry s))) (drop 2 (rxBuff r)))
      = unat (size_reg (regReqEntry s))"
    using assms(1,2) n by simp
  show ?thesis
    unfolding step correlate_on_match [OF assms(8,9,10) small] lst
    using len assms(10) by (simp add: n)
qed

theorem correlator_match_witness:
  "status (regReqEntry (rxHandler_step (frame_lv 0 0 [0, 0x1000, 0xAAAA, 0xBBBB, 0]) read_link)) = 0
   \<and> regRespCnt (rxHandler_step (frame_lv 0 0 [0, 0x1000, 0xAAAA, 0xBBBB, 0]) read_link) = 1
   \<and> data (regReqEntry (rxHandler_step (frame_lv 0 0 [0, 0x1000, 0xAAAA, 0xBBBB, 0]) read_link))
       = [0xAAAA, 0xBBBB]
   \<and> status (regReqEntry (rxHandler_step (frame_lv 0 0 [0, 0x1000, 0xAAAA, 0xBBBB, 5]) read_link)) = 5
   \<and> data (regReqEntry (rxHandler_step (frame_lv 0 0 [0, 0x1000, 0xAAAA, 0xBBBB, 5]) read_link))
       = [0xFFFFFFFF, 0xFFFFFFFF]"
  using correlator_match [of "frame_lv 0 0 [0, 0x1000, 0xAAAA, 0xBBBB, 0]" read_link]
    correlator_match [of "frame_lv 0 0 [0, 0x1000, 0xAAAA, 0xBBBB, 5]" read_link]
  by (simp add: frame_lv_def read_link_def idle_link_def isDataFrame_def replicate_two)

text \<open>
  C5. A control frame whose header or size does not match the outstanding register
  request only advances \<open>unexpCount_\<close> by 1: the response counter, the request's
  buffer and status, and the data queue stay as they are.
\<close>

theorem unexpected_frame:
  assumes "4 \<le> rxRet r" "rxRet r < 2 ^ 31"
    and "rxEofe r = 0" "rxFifoErr r = 0" "rxLengthErr r = 0"
    and "\<not> isDataFrame (dataSource s) (rxLane r) (rxVc r)"
    and "take 2 (rxBuff r) \<noteq> take 2 (regBuff s)
         \<or> rxRet r - 3 \<noteq> uint (size_reg (regReqEntry s))"
  shows "rxHandler_step r s = s\<lparr>unexpCount := unexpCount s + 1\<rparr>
       \<and> unexpCount (rxHandler_step r s) = unexpCount s + 1
       \<and> regRespCnt (rxHandler_step r s) = regRespCnt s
       \<and> regReqEntry (rxHandler_step r s) = regReqEntry s
       \<and> dataQueue (rxHandler_step r s) = dataQueue s
       \<and> errorCount (rxHandler_step r s) = errorCount s"
proof -
  have step: "rxHandler_step r s = correlate r s"
    using assms(1,3-6) by (simp add: rxHandler_step_def)
  have "\<not> (take 2 (rxBuff r) = take 2 (regBuff s)
      \<and> (word_of_int (rxRet r - 3) :: u32) = size_reg (regReqEntry s))"
    using assms(7) size_match [of "rxRet r" "size_reg (regReqEntry s)"] assms(1,2) by auto
  then have "correlate r s = s\<lparr>unexpCount := unexpCount s + 1\<rparr>"
    unfolding correlate_def by (simp only: if_False)
  then show ?thesis
    by (simp add: step)
qed

theorem unexpected_frame_witness:
  "rxHandler_step (frame_lv 0 0 [0, 0x2000, 0xAAAA, 0xBBBB, 0]) read_link
     = read_link\<lparr>unexpCount := 1\<rparr>
   \<and> rxHandler_step (frame_lv 0 0 [0, 0x1000, 0xAAAA, 0]) read_link
     = read_link\<lparr>unexpCount := 1\<rparr>"
  using unexpected_frame [of "frame_lv 0 0 [0, 0x2000, 0xAAAA, 0xBBBB, 0]" read_link]
    unexpected_frame [of "frame_lv 0 0 [0, 0x1000, 0xAAAA, 0]" read_link]
  by (simp add: frame_lv_def read_link_def idle_link_def isDataFrame_def)

section \<open>The synchronous receive operation\<close>

lemma int32_id:
  assumes "- (2 ^ 31) \<le> k" "k < 2 ^ 31"
  shows "int32 k = k"
  unfolding int32_def sint_sbintrunc'
  using assms by (simp add: signed_take_bit_int_eq_self)

lemma bit30: "(w AND 0x40000000 \<noteq> 0) = bit (w :: u32) 30"
proof -
  have "(0x40000000 :: u32) = push_bit 30 1" by simp
  then show ?thesis
    by (simp only: bit_iff_and_push_bit_not_eq_0)
qed

lemma last_received:
  assumes "1 \<le> k" "k \<le> int (length ws)"
  shows "ws ! nat (k - 1) = last (take (nat k) ws)"
proof -
  have "take (nat k) ws \<noteq> []"
    using assms by auto
  moreover have "length (take (nat k) ws) = nat k"
    using assms(2) by simp
  ultimately show ?thesis
    using assms by (simp add: last_conv_nth nat_diff_distrib)
qed

lemma receive_reject_frame:
  assumes "rxRet r \<noteq> 0"
    and "rxRet r < 4 \<or> rxEofe r \<noteq> 0 \<or> rxFifoErr r \<noteq> 0 \<or> rxLengthErr r \<noteq> 0"
  shows "receive isDataSource r out rxRegister = (- 1, out, rxRegister)"
  using assms by (simp add: receive_def)

lemma receive_register:
  assumes "4 \<le> rxRet r" "rxEofe r = 0" "rxFifoErr r = 0" "rxLengthErr r = 0"
    and "\<not> isDataSource (rx_dataSource (rxLane r) (rxVc r))"
  shows "receive isDataSource r out rxRegister =
     (let reg1 = rxRegister\<lparr>address := push_bit 2 (rxBuff r ! 1)\<rparr>;
          out1 = \<lparr>outType = (if bit (rxBuff r ! 1) 30
                               then MultTypeRegisterWrite else MultTypeRegisterRead),
                  outPtr = RxRegisterPtr,
                  outContext = rxBuff r ! 0\<rparr>
      in if rxRet r - 3 > sint (size_reg rxRegister)
         then (- 1, out1, reg1)
         else (int32 (rxRet r * 4), out1,
               reg1\<lparr>data := take (nat (rxRet r - 3)) (drop 2 (rxBuff r))
                               @ drop (nat (rxRet r - 3)) (data rxRegister),
                    status := rxBuff r ! nat (rxRet r - 1)\<rparr>))"
proof -
  have "nat ((rxRet r - 3) * 4) div 4 = nat (rxRet r - 3)"
    using assms(1) by (simp add: nat_mult_distrib)
  then show ?thesis
    using assms by (simp add: receive_def Let_def memcpy_words_def bit30)
qed

lemma size_room:
  fixes sz :: u32
  assumes "1 \<le> k" "k \<le> sint sz"
  shows "nat k \<le> unat sz"
proof -
  have "sint sz < 2 ^ 31"
    using sint_lt [of sz] by simp
  then have "take_bit 32 (sint sz) = sint sz"
    using assms by (simp add: take_bit_int_eq_self)
  then have "uint sz = sint sz"
    using uint_sint [of sz] by simp
  then show ?thesis
    using assms by (simp add: unat_eq_nat_uint)
qed

lemma rxHandler_write_keeps_data:
  assumes "regReqWrite s"
  shows "data (regReqEntry (rxHandler_step r s)) = data (regReqEntry s)"
  using assms by (simp add: rxHandler_step_def correlate_def Let_def)

text \<open>
  C10. In the synchronous variant, every accepted register response, whether word 1
  has bit 30 set (write acknowledgment) or not, overwrites the front of the register
  object's data buffer with the received length - 3 payload words and sets the status
  to the last received word. The asynchronous receive thread, in contrast, never
  changes the data buffer of a write request.
\<close>

theorem sync_receive_copies_for_writes_too:
  assumes "4 \<le> rxRet r" "rxRet r \<le> int (length (rxBuff r))" "length (rxBuff r) < 2 ^ 29"
    and "rxEofe r = 0" "rxFifoErr r = 0" "rxLengthErr r = 0"
    and "\<not> isDataSource (rx_dataSource (rxLane r) (rxVc r))"
    and "rxRet r - 3 \<le> sint (size_reg rxRegister)"
    and "length (data rxRegister) = unat (size_reg rxRegister)"
  shows "fst (receive isDataSource r out rxRegister) = 4 * rxRet r
       \<and> outType (fst (snd (receive isDataSource r out rxRegister)))
           = (if bit (rxBuff r ! 1) 30 then MultTypeRegisterWrite else MultTypeRegisterRead)
       \<and> data (snd (snd (receive isDataSource r out rxRegister)))
           = take (nat (rxRet r - 3)) (drop 2 (rxBuff r))
               @ drop (nat (rxRet r - 3)) (data rxRegister)
       \<and> length (take (nat (rxRet r - 3)) (drop 2 (rxBuff r))) = nat (rxRet r - 3)
       \<and> length (data (snd (snd (receive isDataSource r out rxRegister))))
           = length (data rxRegister)
       \<and> status (snd (snd (receive isDataSource r out rxRegister)))
           = last (take (nat (rxRet r)) (rxBuff r))
       \<and> (\<forall>s. regReqWrite s \<longrightarrow>
             data (regReqEntry (rxHandler_step r s)) = data (regReqEntry s))"
proof -
  have "int (length (rxBuff r)) < 2 ^ 29"
    using assms(3) by simp
  then have "rxRet r * 4 < 2 ^ 31"
    using assms(2) by simp
  then have ret4: "int32 (rxRet r * 4) = 4 * rxRet r"
    using assms(1) by (simp add: int32_id)
  have room: "nat (rxRet r - 3) \<le> length (data rxRegister)"
    using size_room [of "rxRet r - 3" "size_reg rxRegister"] assms(1,8,9) by simp
  have lst: "rxBuff r ! nat (rxRet r - 1) = last (take (nat (rxRet r)) (rxBuff r))"
    using assms(1,2) by (intro last_received) simp_all
  have pay: "length (take (nat (rxRet r - 3)) (drop 2 (rxBuff r))) = nat (rxRet r - 3)"
    using assms(1,2) by simp
  have acc: "\<not> rxRet r - 3 > sint (size_reg rxRegister)"
    using assms(8) by simp
  show ?thesis
    unfolding receive_register [where isDataSource = isDataSource, OF assms(1,4,5,6,7)] Let_def
    using acc room pay
    by (simp add: ret4 lst rxHandler_write_keeps_data)
qed

theorem sync_receive_copies_for_writes_too_witness:
  "receive no_data_source (frame_lv 0 0 [9, 0x40000400, 0xAAAA, 0xBBBB, 0]) out0 rx_reg4
     = (20, \<lparr>outType = MultTypeRegisterWrite, outPtr = RxRegisterPtr, outContext = 9\<rparr>,
        \<lparr>address = 0x1000, data = [0xAAAA, 0xBBBB, 0, 0], size_reg = 4, status = 0\<rparr>)"
proof -
  have "receive no_data_source (frame_lv 0 0 [9, 0x40000400, 0xAAAA, 0xBBBB, 0]) out0 rx_reg4
     = (int32 20, \<lparr>outType = MultTypeRegisterWrite, outPtr = RxRegisterPtr, outContext = 9\<rparr>,
        \<lparr>address = 0x1000, data = [0xAAAA, 0xBBBB, 0, 0], size_reg = 4, status = 0\<rparr>)"
    by (simp add: receive_def frame_lv_def rx_reg4_def out0_def memcpy_words_def no_data_source_def)
  moreover have "fst (receive no_data_source (frame_lv 0 0 [9, 0x40000400, 0xAAAA, 0xBBBB, 0])
      out0 rx_reg4) = 20"
    using sync_receive_copies_for_writes_too
      [of "frame_lv 0 0 [9, 0x40000400, 0xAAAA, 0xBBBB, 0]" no_data_source rx_reg4 out0]
    by (simp add: frame_lv_def rx_reg4_def no_data_source_def)
  ultimately show ?thesis
    by simp
qed


text \<open>
  C4, as stated, fails: a frame of three words is answered with the error value
  \<open>-1\<close>, and a response whose length - 3 is smaller than the size of the receive
  register object is accepted and delivered.
\<close>

theorem sync_receive_invalid_counterexample:
  "receive no_data_source (frame_lv 0 0 [9, 0x400, 0]) out0 rx_reg4 = (- 1, out0, rx_reg4)
   \<and> receive no_data_source (frame_lv 0 0 [9, 0x400, 0xAAAA, 0xBBBB, 0]) out0 rx_reg4
     = (20, \<lparr>outType = MultTypeRegisterRead, outPtr = RxRegisterPtr, outContext = 9\<rparr>,
        \<lparr>address = 0x1000, data = [0xAAAA, 0xBBBB, 0, 0], size_reg = 4, status = 0\<rparr>)"
  by (simp add: receive_def frame_lv_def rx_reg4_def out0_def memcpy_words_def
      no_data_source_def int32_def)

text \<open>
  C4, amended. \<open>receive\<close> answers a frame of fewer than four words (other than the
  no-data result 0) or with an error flag with \<open>-1\<close> and changes nothing. A register
  response is rejected, also with \<open>-1\<close> and with data buffer and status untouched,
  exactly when its length - 3 exceeds the size of the receive register object. Every
  other register response is accepted: its length - 3 payload words (from index 2) go
  to the front of the data buffer, the last word becomes the status, and four times
  the length is returned.
\<close>

theorem sync_receive_validity:
  assumes "rxRet r \<le> int (length (rxBuff r))" "length (rxBuff r) < 2 ^ 29"
  shows "(rxRet r \<noteq> 0 \<and>
          (rxRet r < 4 \<or> rxEofe r \<noteq> 0 \<or> rxFifoErr r \<noteq> 0 \<or> rxLengthErr r \<noteq> 0) \<longrightarrow>
            receive isDataSource r out rxRegister = (- 1, out, rxRegister))
       \<and> (4 \<le> rxRet r \<and> rxEofe r = 0 \<and> rxFifoErr r = 0 \<and> rxLengthErr r = 0
            \<and> \<not> isDataSource (rx_dataSource (rxLane r) (rxVc r)) \<longrightarrow>
            (rxRet r - 3 > sint (size_reg rxRegister) \<longrightarrow>
               fst (receive isDataSource r out rxRegister) = - 1
               \<and> data (snd (snd (receive isDataSource r out rxRegister))) = data rxRegister
               \<and> status (snd (snd (receive isDataSource r out rxRegister)))
                   = status rxRegister)
          \<and> (rxRet r - 3 \<le> sint (size_reg rxRegister) \<longrightarrow>
               fst (receive isDataSource r out rxRegister) = 4 * rxRet r
               \<and> data (snd (snd (receive isDataSource r out rxRegister)))
                   = take (nat (rxRet r - 3)) (drop 2 (rxBuff r))
                       @ drop (nat (rxRet r - 3)) (data rxRegister)
               \<and> length (take (nat (rxRet r - 3)) (drop 2 (rxBuff r))) = nat (rxRet r - 3)
               \<and> status (snd (snd (receive isDataSource r out rxRegister)))
                   = last (take (nat (rxRet r)) (rxBuff r))))"
proof (intro conjI impI)
  assume "rxRet r \<noteq> 0 \<and>
      (rxRet r < 4 \<or> rxEofe r \<noteq> 0 \<or> rxFifoErr r \<noteq> 0 \<or> rxLengthErr r \<noteq> 0)"
  then show "receive isDataSource r out rxRegister = (- 1, out, rxRegister)"
    by (intro receive_reject_frame) simp_all
next
  assume g: "4 \<le> rxRet r \<and> rxEofe r = 0 \<and> rxFifoErr r = 0 \<and> rxLengthErr r = 0
      \<and> \<not> isDataSource (rx_dataSource (rxLane r) (rxVc r))"
  note reg = receive_register [where isDataSource = isDataSource and r = r
      and out = out and rxRegister = rxRegister]
  {
    assume big: "rxRet r - 3 > sint (size_reg rxRegister)"
    show "fst (receive isDataSource r out rxRegister) = - 1"
      using g big by (simp add: reg Let_def)
    show "data (snd (snd (receive isDataSource r out rxRegister))) = data rxRegister"
      using g big by (simp add: reg Let_def)
    show "status (snd (snd (receive isDataSource r out rxRegister))) = status rxRegister"
      using g big by (simp add: reg Let_def)
  }
  {
    assume ok: "rxRet r - 3 \<le> sint (size_reg rxRegister)"
    have "int (length (rxBuff r)) < 2 ^ 29"
      using assms(2) by simp
    then have "rxRet r * 4 < 2 ^ 31"
      using assms(1) by simp
    then have ret4: "int32 (rxRet r * 4) = 4 * rxRet r"
      using g by (simp add: int32_id)
    have lst: "rxBuff r ! nat (rxRet r - 1) = last (take (nat (rxRet r)) (rxBuff r))"
      using g assms(1) by (intro last_received) simp_all
    show "fst (receive isDataSource r out rxRegister) = 4 * rxRet r"
      using g ok by (simp add: reg Let_def ret4)
    show "data (snd (snd (receive isDataSource r out rxRegister)))
        = take (nat (rxRet r - 3)) (drop 2 (rxBuff r)) @ drop (nat (rxRet r - 3)) (data rxRegister)"
      using g ok by (simp add: reg Let_def)
    show "length (take (nat (rxRet r - 3)) (drop 2 (rxBuff r))) = nat (rxRet r - 3)"
      using g assms(1) by simp
    show "status (snd (snd (receive isDataSource r out rxRegister)))
        = last (take (nat (rxRet r)) (rxBuff r))"
      using g ok by (simp add: reg Let_def lst)
  }
qed

theorem sync_receive_validity_witness:
  "receive no_data_source (frame_lv 0 0 [9, 0x400, 7]) out0 rx_reg4 = (- 1, out0, rx_reg4)
   \<and> fst (receive no_data_source (frame_lv 0 0 [9, 0x400, 1, 2, 3, 4, 5, 0]) out0 rx_reg4) = - 1
   \<and> data (snd (snd (receive no_data_source (frame_lv 0 0 [9, 0x400, 1, 2, 3, 4, 5, 0])
        out0 rx_reg4))) = [0, 0, 0, 0]
   \<and> fst (receive no_data_source (frame_lv 0 0 [9, 0x400, 0xAAAA, 0xBBBB, 6]) out0 rx_reg4) = 20
   \<and> data (snd (snd (receive no_data_source (frame_lv 0 0 [9, 0x400, 0xAAAA, 0xBBBB, 6])
        out0 rx_reg4))) = [0xAAAA, 0xBBBB, 0, 0]
   \<and> status (snd (snd (receive no_data_source (frame_lv 0 0 [9, 0x400, 0xAAAA, 0xBBBB, 6])
        out0 rx_reg4))) = 6"
  using sync_receive_validity [of "frame_lv 0 0 [9, 0x400, 7]" no_data_source out0 rx_reg4]
    sync_receive_validity [of "frame_lv 0 0 [9, 0x400, 1, 2, 3, 4, 5, 0]" no_data_source out0 rx_reg4]
    sync_receive_validity [of "frame_lv 0 0 [9, 0x400, 0xAAAA, 0xBBBB, 6]" no_data_source out0 rx_reg4]
  by (simp add: frame_lv_def rx_reg4_def no_data_source_def)

section \<open>Register frames\<close>

lemma take_prefix_exact:
  assumes "length xs = k"
  shows "take k (xs @ ys) = xs"
  using assms by simp

lemma frame_write_words:
  assumes "n + 3 \<le> length buf" "length d = n"
  shows "take (n + 3) ((memcpy_words (buf[0 := c, 1 := w]) 2 d 0 (4 * n))[n + 2 := 0])
       = [c, w] @ d @ [0]"
proof -
  obtain x0 x1 rest where buf: "buf = x0 # x1 # rest"
    using assms(1) by (cases buf; cases "tl buf") auto
  have "n < length rest"
    using assms(1) buf by simp
  then obtain y ys where dr: "drop n rest = y # ys"
    by (cases "drop n rest") auto
  have m: "memcpy_words (buf[0 := c, 1 := w]) 2 d 0 (4 * n) = [c, w] @ d @ (y # ys)"
    using assms(2) by (simp add: memcpy_words_def buf dr)
  have u: "([c, w] @ d @ (y # ys))[n + 2 := 0] = ([c, w] @ d @ [0]) @ ys"
    using assms(2) by (simp add: list_update_append)
  have "length ([c, w] @ d @ [0]) = n + 3"
    using assms(2) by simp
  then have "take (n + 3) (([c, w] @ d @ [0]) @ ys) = [c, w] @ d @ [0]"
    by (rule take_prefix_exact)
  then show ?thesis
    by (simp only: m u)
qed

lemma frame_read_words:
  assumes "4 \<le> length buf"
  shows "take 4 (buf[0 := c, 1 := w, 2 := x, 3 := y]) = [c, w, x, y]"
proof -
  obtain x0 x1 x2 x3 rest where buf: "buf = x0 # x1 # x2 # x3 # rest"
    using assms by (cases buf; cases "tl buf"; cases "tl (tl buf)"; cases "tl (tl (tl buf))") auto
  show ?thesis
    by (simp add: buf)
qed

lemma header_word:
  assumes "2 \<le> length buf"
  shows "(buf[0 := c, 1 := f])[1 := (buf[0 := c, 1 := f]) ! 1 OR a] = buf[0 := c, 1 := f OR a]"
  using assms by simp

lemma size_words:
  fixes sz :: u32
  assumes "unat sz + 3 < 2 ^ 30"
  shows "unat (sz * 4) = 4 * unat sz" "unat (sz + 2) = unat sz + 2" "unat (sz + 3) = unat sz + 3"
proof -
  show "unat (sz * 4) = 4 * unat sz"
    using assms by (intro unat_times4) simp
  have "unat sz + unat (2 :: u32) < 2 ^ LENGTH(32)"
    using assms by simp
  then have "unat (sz + 2) = unat sz + unat (2 :: u32)"
    by (simp only: unat_add_lem)
  then show "unat (sz + 2) = unat sz + 2" by simp
  have "unat sz + unat (3 :: u32) < 2 ^ LENGTH(32)"
    using assms by simp
  then have "unat (sz + 3) = unat sz + unat (3 :: u32)"
    by (simp only: unat_add_lem)
  then show "unat (sz + 3) = unat sz + 3" by simp
qed

lemma register_setup_write:
  assumes "unat (size_reg reg) + 3 \<le> length buf" "length buf < 2 ^ 30"
    and "length (data reg) = unat (size_reg reg)"
  shows "wire_words (register_setup True reg c config buf)
       = [c, 0x40000000 OR (drop_bit 2 (address reg) AND 0x3FFFFFFF)] @ data reg @ [0]"
proof -
  have s: "unat (size_reg reg) + 3 < 2 ^ 30"
    using assms(1,2) by linarith
  have l2: "2 \<le> length buf"
    using assms(1) by simp
  show ?thesis
    unfolding register_setup_def wire_words_def Let_def if_True
    by (simp only: header_word [OF l2] size_words [OF s] send_call.simps
        frame_write_words [OF assms(1,3)])
qed

lemma register_setup_read:
  assumes "4 \<le> length buf"
  shows "wire_words (register_setup False reg c config buf)
       = [c, drop_bit 2 (address reg) AND 0x3FFFFFFF, size_reg reg - 1, 0]"
proof -
  have l2: "2 \<le> length buf"
    using assms by simp
  have z: "(0x00000000 :: u32) OR a = a" for a
    by simp
  have u4: "unat (4 :: u32) = 4"
    by simp
  show ?thesis
    unfolding register_setup_def wire_words_def Let_def if_False
    by (simp only: header_word [OF l2] z send_call.simps u4 frame_read_words [OF assms])
qed

lemma reg_call_write:
  assumes "unat (size_reg reg) + 3 \<le> length buf" "length buf < 2 ^ 30"
    and "length (data reg) = unat (size_reg reg)"
  shows "wire_words (reg_call True reg buf)
       = [0, 0x40000000 OR (address reg AND 0x00FFFFFF)] @ data reg @ [0]"
proof -
  have s: "unat (size_reg reg) + 3 < 2 ^ 30"
    using assms(1,2) by linarith
  have l2: "2 \<le> length buf"
    using assms(1) by simp
  show ?thesis
    unfolding reg_call_def wire_words_def Let_def if_True
    by (simp only: header_word [OF l2] size_words [OF s] send_call.simps
        frame_write_words [OF assms(1,3)])
qed

lemma reg_call_read:
  assumes "4 \<le> length buf"
  shows "wire_words (reg_call False reg buf)
       = [0, address reg AND 0x00FFFFFF, size_reg reg - 1, 0]"
proof -
  have l2: "2 \<le> length buf"
    using assms by simp
  have z: "(0x00000000 :: u32) OR a = a" for a
    by simp
  have u4: "unat (4 :: u32) = 4"
    by simp
  show ?thesis
    unfolding reg_call_def wire_words_def Let_def if_False
    by (simp only: header_word [OF l2] z send_call.simps u4 frame_read_words [OF assms])
qed


lemma ioHandler_cycle_reg:
  assumes "lastRunCnt l = runReqCnt s" "lastReqCnt l \<noteq> regReqCnt s"
  shows "ioHandler_cycle sendRet s l =
           (s\<lparr>regBuff := txData (reg_call (regReqWrite s) (regReqEntry s) (regBuff s))\<rparr>,
            l\<lparr>lastReqCnt := regReqCnt s\<rparr>,
            Some (reg_call (regReqWrite s) (regReqEntry s) (regBuff s)))"
  using assms by (simp add: ioHandler_cycle_def Let_def)

text \<open>
  C3. For a register of \<open>S\<close> words, with a transmit buffer that holds the frame: a
  write frame is the header, the \<open>S\<close> data words and one zero word, \<open>S + 3\<close> words
  in all; a read frame has four words, word 2 being \<open>S - 1\<close> and word 3 zero. Word 1
  is the write flag (bit 30) OR'd with the address, dropped by two bits and masked to
  30 bits in \<open>MultDestPgpMask::transmit\<close> (Scheme A, word 0 the context), masked to
  the low 24 bits in \<open>PgpCardG3Link::ioHandler\<close> (Scheme B, word 0 zero). A Scheme A
  write of \<open>[0xAAAA, 0xBBBB]\<close> to address \<open>0x1000\<close> gives
  \<open>[context, 0x40000400, 0xAAAA, 0xBBBB, 0]\<close>.
\<close>

theorem register_frame_encoding:
  assumes "4 \<le> length buf" "length buf < 2 ^ 30"
    and "length (data reg) = unat (size_reg reg)"
  shows "(unat (size_reg reg) + 3 \<le> length buf \<longrightarrow>
            (\<exists>c. tx_setup MultTypeRegisterWrite (RegisterPtr reg) sizeB ctx config buf = Some c
               \<and> wire_words c
                   = [ctx, 0x40000000 OR (drop_bit 2 (address reg) AND 0x3FFFFFFF)]
                       @ data reg @ [0]
               \<and> txSize c = size_reg reg + 3
               \<and> length (wire_words c) = unat (size_reg reg) + 3))
       \<and> (\<exists>c. tx_setup MultTypeRegisterRead (RegisterPtr reg) sizeB ctx config buf = Some c
               \<and> wire_words c
                   = [ctx, drop_bit 2 (address reg) AND 0x3FFFFFFF, size_reg reg - 1, 0]
               \<and> txSize c = 4)
       \<and> (lastRunCnt l = runReqCnt s \<and> lastReqCnt l \<noteq> regReqCnt s
            \<and> regReqEntry s = reg \<and> regBuff s = buf \<longrightarrow>
            (regReqWrite s \<and> unat (size_reg reg) + 3 \<le> length buf \<longrightarrow>
               (\<exists>c. snd (snd (ioHandler_cycle sendRet s l)) = Some c
                  \<and> wire_words c
                      = [0, 0x40000000 OR (address reg AND 0x00FFFFFF)] @ data reg @ [0]
                  \<and> txSize c = size_reg reg + 3
                  \<and> length (wire_words c) = unat (size_reg reg) + 3))
          \<and> (\<not> regReqWrite s \<longrightarrow>
               (\<exists>c. snd (snd (ioHandler_cycle sendRet s l)) = Some c
                  \<and> wire_words c = [0, address reg AND 0x00FFFFFF, size_reg reg - 1, 0]
                  \<and> txSize c = 4)))
       \<and> (address reg = 0x00001000 \<and> data reg = [0xAAAA, 0xBBBB] \<and> size_reg reg = 2
            \<and> 5 \<le> length buf \<longrightarrow>
            (\<exists>c. tx_setup MultTypeRegisterWrite (RegisterPtr reg) sizeB ctx config buf = Some c
               \<and> wire_words c = [ctx, 0x40000400, 0xAAAA, 0xBBBB, 0]))"
proof (intro conjI impI)
  assume cap: "unat (size_reg reg) + 3 \<le> length buf"
  show "\<exists>c. tx_setup MultTypeRegisterWrite (RegisterPtr reg) sizeB ctx config buf = Some c
      \<and> wire_words c
          = [ctx, 0x40000000 OR (drop_bit 2 (address reg) AND 0x3FFFFFFF)] @ data reg @ [0]
      \<and> txSize c = size_reg reg + 3
      \<and> length (wire_words c) = unat (size_reg reg) + 3"
    using assms(3)
    by (simp add: register_setup_write [OF cap assms(2,3)])
      (simp add: register_setup_def Let_def)
next
  show "\<exists>c. tx_setup MultTypeRegisterRead (RegisterPtr reg) sizeB ctx config buf = Some c
      \<and> wire_words c = [ctx, drop_bit 2 (address reg) AND 0x3FFFFFFF, size_reg reg - 1, 0]
      \<and> txSize c = 4"
    by (simp add: register_setup_read [OF assms(1)]) (simp add: register_setup_def Let_def)
next
  assume b: "lastRunCnt l = runReqCnt s \<and> lastReqCnt l \<noteq> regReqCnt s
      \<and> regReqEntry s = reg \<and> regBuff s = buf"
    and w: "regReqWrite s \<and> unat (size_reg reg) + 3 \<le> length buf"
  have cyc: "snd (snd (ioHandler_cycle sendRet s l)) = Some (reg_call True reg buf)"
    using b w by (simp add: ioHandler_cycle_reg)
  show "\<exists>c. snd (snd (ioHandler_cycle sendRet s l)) = Some c
      \<and> wire_words c = [0, 0x40000000 OR (address reg AND 0x00FFFFFF)] @ data reg @ [0]
      \<and> txSize c = size_reg reg + 3
      \<and> length (wire_words c) = unat (size_reg reg) + 3"
    using w assms(3)
    by (simp add: cyc reg_call_write [OF _ assms(2,3)]) (simp add: reg_call_def Let_def)
next
  assume b: "lastRunCnt l = runReqCnt s \<and> lastReqCnt l \<noteq> regReqCnt s
      \<and> regReqEntry s = reg \<and> regBuff s = buf"
    and rd: "\<not> regReqWrite s"
  have cyc: "snd (snd (ioHandler_cycle sendRet s l)) = Some (reg_call False reg buf)"
    using b rd by (simp add: ioHandler_cycle_reg)
  show "\<exists>c. snd (snd (ioHandler_cycle sendRet s l)) = Some c
      \<and> wire_words c = [0, address reg AND 0x00FFFFFF, size_reg reg - 1, 0]
      \<and> txSize c = 4"
    by (simp add: cyc reg_call_read [OF assms(1)]) (simp add: reg_call_def Let_def)
next
  assume e: "address reg = 0x00001000 \<and> data reg = [0xAAAA, 0xBBBB] \<and> size_reg reg = 2
      \<and> 5 \<le> length buf"
  then have cap: "unat (size_reg reg) + 3 \<le> length buf"
    by simp
  show "\<exists>c. tx_setup MultTypeRegisterWrite (RegisterPtr reg) sizeB ctx config buf = Some c
      \<and> wire_words c = [ctx, 0x40000400, 0xAAAA, 0xBBBB, 0]"
    using e by (simp add: register_setup_write [OF cap assms(2,3)])
qed

theorem register_frame_encoding_witness:
  "(\<exists>c. tx_setup MultTypeRegisterWrite (RegisterPtr reg_1000) 0 9 0 [0, 0, 0, 0, 0, 0, 0, 0]
          = Some c
      \<and> wire_words c = [9, 0x40000400, 0xAAAA, 0xBBBB, 0] \<and> txSize c = 5)
   \<and> (\<exists>c. tx_setup MultTypeRegisterRead (RegisterPtr reg_1000) 0 9 0 [0, 0, 0, 0, 0, 0, 0, 0]
          = Some c
      \<and> wire_words c = [9, 0x00000400, 1, 0] \<and> txSize c = 4)
   \<and> (\<exists>c. snd (snd (ioHandler_cycle (- 1) write_link io_idle)) = Some c
      \<and> wire_words c = [0, 0x40001000, 0xAAAA, 0xBBBB, 0] \<and> txSize c = 5)"
  using register_frame_encoding [where buf = "[0, 0, 0, 0, 0, 0, 0, 0]" and reg = reg_1000
      and sizeB = 0 and ctx = 9 and config = 0 and s = write_link and l = io_idle
      and sendRet = "- 1"]
  by (simp add: reg_1000_def write_link_def io_idle_def idle_link_def) blast

section \<open>The send loop of the synchronous transmit\<close>

lemma send_retry_finish:
  assumes "0 \<le> pgpcard_send (n + d) c" "\<forall>j<d. pgpcard_send (n + j) c < 0" "ret < 0"
  shows "send_retry pgpcard_send c n ret = Some (pgpcard_send (n + d) c, Suc (n + d))"
  using assms
proof (induction d arbitrary: n ret)
  case 0
  then have "send_retry pgpcard_send c (Suc n) (pgpcard_send n c) = Some (pgpcard_send n c, Suc n)"
    by (subst send_retry.simps) simp
  with 0 show ?case
    by (subst send_retry.simps) simp
next
  case (Suc d)
  have neg: "pgpcard_send n c < 0"
    using Suc.prems(2) by (metis add.right_neutral zero_less_Suc)
  have "send_retry pgpcard_send c (Suc n) (pgpcard_send n c)
      = Some (pgpcard_send (Suc n + d) c, Suc (Suc n + d))"
  proof (rule Suc.IH)
    show "0 \<le> pgpcard_send (Suc n + d) c"
      using Suc.prems(1) by simp
    show "\<forall>j<d. pgpcard_send (Suc n + j) c < 0"
      using Suc.prems(2) by (metis Suc_less_eq add_Suc_shift)
    show "pgpcard_send n c < 0"
      by (rule neg)
  qed
  with Suc.prems(3) show ?case
    by (subst send_retry.simps) simp
qed

lemma transmit_send_first:
  assumes "0 \<le> pgpcard_send k c" "\<forall>j<k. pgpcard_send j c < 0"
  shows "transmit_send pgpcard_send c =
           Some (if 0 < pgpcard_send k c then int32 (pgpcard_send k c * 4) else pgpcard_send k c,
                 Suc k)"
proof (cases k)
  case 0
  then have "send_retry pgpcard_send c 1 (pgpcard_send 0 c) = Some (pgpcard_send 0 c, 1)"
    using assms(1) by (subst send_retry.simps) simp
  then show ?thesis
    using 0 by (simp add: transmit_send_def)
next
  case (Suc m)
  have "send_retry pgpcard_send c 1 (pgpcard_send 0 c)
      = Some (pgpcard_send (1 + m) c, Suc (1 + m))"
  proof (rule send_retry_finish)
    show "0 \<le> pgpcard_send (1 + m) c"
      using assms(1) Suc by simp
    show "\<forall>j<m. pgpcard_send (1 + j) c < 0"
      using assms(2) Suc by simp
    show "pgpcard_send 0 c < 0"
      using assms(2) Suc by simp
  qed
  then show ?thesis
    using Suc by (simp add: transmit_send_def)
qed

lemma send_retry_result:
  assumes "send_retry pgpcard_send c n ret = Some y"
  shows "0 \<le> fst y \<and> (fst y = ret \<or> (\<exists>k. fst y = pgpcard_send k c))"
  by (rule send_retry.raw_induct
        [where P = "\<lambda>f c n ret y. 0 \<le> fst y \<and> (fst y = ret \<or> (\<exists>k. fst y = f k c))",
         OF _ assms])
    (fastforce split: if_splits)

lemma transmit_send_result:
  assumes "transmit_send pgpcard_send c = Some (v, n)"
    and "\<forall>k. pgpcard_send k c < 2 ^ 29"
  shows "0 \<le> v"
proof -
  obtain r where r: "send_retry pgpcard_send c 1 (pgpcard_send 0 c) = Some (r, n)"
    and v: "v = (if 0 < r then int32 (r * 4) else r)"
    using assms(1) by (auto simp add: transmit_send_def split: option.splits)
  have r0: "0 \<le> r" and "\<exists>k. r = pgpcard_send k c"
    using send_retry_result [OF r] by auto
  then have "r * 4 < 2 ^ 31"
    using assms(2) by fastforce
  then have "int32 (r * 4) = 4 * r"
    using r0 by (simp add: int32_id)
  then show ?thesis
    using r0 by (simp add: v)
qed

text \<open>
  C9. In the synchronous variant a failed send (negative return) is followed by the
  same send again, as often as it takes: when the first non-negative result is that of
  call number \<open>k\<close>, \<open>transmit\<close> has called the primitive \<open>k + 1\<close> times, for any
  \<open>k\<close>. If some call returns a non-negative value, \<open>transmit\<close> returns, and whenever
  it returns its value is not negative. The primitive returns word counts below
  \<open>2^29\<close>, so that the byte count \<open>ret * 4\<close> fits \<open>int32_t\<close>.
\<close>

theorem transmit_retries_until_sent:
  assumes "tx_setup type ptr sizeB ctx config txBuf = Some c"
    and "\<forall>k. pgpcard_send k c < 2 ^ 29"
  shows "((\<exists>k. 0 \<le> pgpcard_send k c) \<longrightarrow>
            (\<exists>v n. transmit pgpcard_send type ptr sizeB ctx config txBuf = Some (v, n)
                \<and> 0 \<le> v))
       \<and> (\<forall>k. 0 \<le> pgpcard_send k c \<and> (\<forall>j<k. pgpcard_send j c < 0) \<longrightarrow>
            transmit pgpcard_send type ptr sizeB ctx config txBuf
              = Some (if 0 < pgpcard_send k c then 4 * pgpcard_send k c else pgpcard_send k c,
                      Suc k))
       \<and> (\<forall>v n. transmit pgpcard_send type ptr sizeB ctx config txBuf = Some (v, n) \<longrightarrow>
            0 \<le> v)"
proof -
  have nonneg: "0 \<le> v"
    if "transmit pgpcard_send type ptr sizeB ctx config txBuf = Some (v, n)" for v n
    using that transmit_send_result [where pgpcard_send = pgpcard_send and c = c, OF _ assms(2)]
    by (simp add: transmit_def assms(1))
  have first: "transmit pgpcard_send type ptr sizeB ctx config txBuf
      = Some (if 0 < pgpcard_send k c then 4 * pgpcard_send k c else pgpcard_send k c, Suc k)"
    if k: "0 \<le> pgpcard_send k c" "\<forall>j<k. pgpcard_send j c < 0" for k
  proof -
    have "pgpcard_send k c * 4 < 2 ^ 31"
      using assms(2) [rule_format, of k] by simp
    then have "int32 (pgpcard_send k c * 4) = 4 * pgpcard_send k c"
      using k(1) by (simp add: int32_id)
    then show ?thesis
      by (simp add: transmit_def assms(1) transmit_send_first [where pgpcard_send = pgpcard_send and c = c and k = k, OF k])
  qed
  have "\<exists>v n. transmit pgpcard_send type ptr sizeB ctx config txBuf = Some (v, n) \<and> 0 \<le> v"
    if ex: "\<exists>k. 0 \<le> pgpcard_send k c"
  proof -
    define k0 where "k0 = (LEAST k. 0 \<le> pgpcard_send k c)"
    have ok: "0 \<le> pgpcard_send k0 c"
      unfolding k0_def using ex by (rule LeastI_ex)
    have "\<forall>j<k0. pgpcard_send j c < 0"
      unfolding k0_def using not_less_Least by fastforce
    from first [OF ok this] ok show ?thesis
      by (cases "0 < pgpcard_send k0 c") simp_all
  qed
  with first nonneg show ?thesis
    by blast
qed

theorem transmit_retries_until_sent_witness:
  "transmit flaky_send MultTypeCommand (CommandPtr \<lparr>opCode = 3\<rparr>) 0 0 0 [0, 0, 0, 0]
     = Some (16, 4)"
proof -
  let ?c = "\<lparr>txData = [0, 3, 0, 0], txSize = 4, txLane = 0, txVc = 0\<rparr> :: send_call"
  have su: "tx_setup MultTypeCommand (CommandPtr \<lparr>opCode = 3\<rparr>) 0 0 0 [0, 0, 0, 0] = Some ?c"
    by simp
  have bd: "\<forall>k. flaky_send k ?c < 2 ^ 29"
    by (simp add: flaky_send_def)
  have k3: "0 \<le> flaky_send 3 ?c \<and> (\<forall>j<3. flaky_send j ?c < 0)"
    by (simp add: flaky_send_def)
  have "transmit flaky_send MultTypeCommand (CommandPtr \<lparr>opCode = 3\<rparr>) 0 0 0 [0, 0, 0, 0]
      = Some (if 0 < flaky_send 3 ?c then 4 * flaky_send 3 ?c else flaky_send 3 ?c, Suc 3)"
    using transmit_retries_until_sent [where pgpcard_send = flaky_send and c = ?c, OF su bd] k3
    by blast
  then show ?thesis
    by (simp add: flaky_send_def)
qed

section \<open>The transmit scheduler\<close>

lemma pending_cases:
  "pending s l \<noteq> [] \<Longrightarrow>
     hd (pending s l) =
       (if lastRunCnt l \<noteq> runReqCnt s then RunControl
        else if lastReqCnt l \<noteq> regReqCnt s then RegisterTx
        else if lastCmdCnt l \<noteq> cmdReqCnt s then CommandTx
        else RawData)"
  by (simp add: pending_def split: if_splits)

lemma pending_empty:
  "pending s l = [] \<longleftrightarrow>
     lastRunCnt l = runReqCnt s \<and> lastReqCnt l = regReqCnt s
       \<and> lastCmdCnt l = cmdReqCnt s \<and> lastDataCnt l = dataReqCnt s"
  by (simp add: pending_def)

lemma ioHandler_cycle_class:
  assumes "pending s l \<noteq> []"
  shows "ioHandler_cycle sendRet s l =
     (case hd (pending s l) of
        RunControl \<Rightarrow> (s, l\<lparr>lastRunCnt := runReqCnt s\<rparr>, Some (class_call s RunControl))
      | RegisterTx \<Rightarrow> (s\<lparr>regBuff := txData (class_call s RegisterTx)\<rparr>,
                       l\<lparr>lastReqCnt := regReqCnt s\<rparr>, Some (class_call s RegisterTx))
      | CommandTx \<Rightarrow> (s\<lparr>cmdRespCnt := cmdRespCnt s + 1\<rparr>,
                      l\<lparr>lastCmdCnt := cmdReqCnt s\<rparr>, Some (class_call s CommandTx))
      | RawData \<Rightarrow> (s\<lparr>dataRespCnt := dataRespCnt s + 1\<rparr>,
                    l\<lparr>lastDataCnt := dataReqCnt s\<rparr>, Some (class_call s RawData)))"
proof -
  have ne: "\<not> (lastRunCnt l = runReqCnt s \<and> lastReqCnt l = regReqCnt s
       \<and> lastCmdCnt l = cmdReqCnt s \<and> lastDataCnt l = dataReqCnt s)"
    using assms pending_empty [of s l] by blast
  show ?thesis
    unfolding pending_cases [OF assms]
    using ne by (auto simp add: ioHandler_cycle_def Let_def)
qed

lemma lastCnt_update:
  "lastCnt (l\<lparr>lastRunCnt := v\<rparr>) c = (if c = RunControl then v else lastCnt l c)"
  "lastCnt (l\<lparr>lastReqCnt := v\<rparr>) c = (if c = RegisterTx then v else lastCnt l c)"
  "lastCnt (l\<lparr>lastCmdCnt := v\<rparr>) c = (if c = CommandTx then v else lastCnt l c)"
  "lastCnt (l\<lparr>lastDataCnt := v\<rparr>) c = (if c = RawData then v else lastCnt l c)"
  by (cases c; simp)+

lemma reqCnt_update:
  "reqCnt (s\<lparr>regBuff := b\<rparr>) c = reqCnt s c"
  "reqCnt (s\<lparr>cmdRespCnt := v\<rparr>) c = reqCnt s c"
  "reqCnt (s\<lparr>dataRespCnt := v\<rparr>) c = reqCnt s c"
  by (cases c; simp)+

text \<open>
  C7. In a pass of the transmit thread in which some class has a pending request
  (request counter different from the last-serviced value), exactly one class is
  serviced: the first pending one in the order run-control, register, command, data.
  Its frame is the one call of the send primitive, and only its last-serviced value
  changes. Servicing a command or a data request adds 1 to that class's response
  counter; servicing a run-control or register request changes no response counter.
\<close>

theorem scheduler_strict_priority:
  assumes "pending s l \<noteq> []"
  shows "snd (snd (ioHandler_cycle sendRet s l)) = Some (class_call s (hd (pending s l)))
       \<and> (\<forall>c. lastCnt (fst (snd (ioHandler_cycle sendRet s l))) c
               = (if c = hd (pending s l) then reqCnt s c else lastCnt l c))
       \<and> (\<forall>c. reqCnt (fst (ioHandler_cycle sendRet s l)) c = reqCnt s c)
       \<and> cmdRespCnt (fst (ioHandler_cycle sendRet s l))
           = cmdRespCnt s + (if hd (pending s l) = CommandTx then 1 else 0)
       \<and> dataRespCnt (fst (ioHandler_cycle sendRet s l))
           = dataRespCnt s + (if hd (pending s l) = RawData then 1 else 0)
       \<and> regRespCnt (fst (ioHandler_cycle sendRet s l)) = regRespCnt s"
proof (cases "hd (pending s l)")
  case RunControl
  show ?thesis
    unfolding ioHandler_cycle_class [OF assms] RunControl
    by (simp add: lastCnt_update reqCnt_update)
next
  case RegisterTx
  show ?thesis
    unfolding ioHandler_cycle_class [OF assms] RegisterTx
    by (simp add: lastCnt_update reqCnt_update)
next
  case CommandTx
  show ?thesis
    unfolding ioHandler_cycle_class [OF assms] CommandTx
    by (simp add: lastCnt_update reqCnt_update)
next
  case RawData
  show ?thesis
    unfolding ioHandler_cycle_class [OF assms] RawData
    by (simp add: lastCnt_update reqCnt_update)
qed

theorem scheduler_strict_priority_witness:
  "pending busy_link io_idle = [RegisterTx, CommandTx, RawData]
   \<and> snd (snd (ioHandler_cycle 4 busy_link io_idle)) = Some (class_call busy_link RegisterTx)
   \<and> lastReqCnt (fst (snd (ioHandler_cycle 4 busy_link io_idle))) = 1
   \<and> lastCmdCnt (fst (snd (ioHandler_cycle 4 busy_link io_idle))) = 0
   \<and> lastDataCnt (fst (snd (ioHandler_cycle 4 busy_link io_idle))) = 0
   \<and> cmdRespCnt (fst (ioHandler_cycle 4 busy_link io_idle)) = 0
   \<and> dataRespCnt (fst (ioHandler_cycle 4 busy_link io_idle)) = 0"
proof -
  have p: "pending busy_link io_idle = [RegisterTx, CommandTx, RawData]"
    by (simp add: pending_def busy_link_def write_link_def idle_link_def io_idle_def)
  then have ne: "pending busy_link io_idle \<noteq> []"
    by simp
  note t = scheduler_strict_priority [OF ne, of 4, unfolded p]
  have l: "lastCnt (fst (snd (ioHandler_cycle 4 busy_link io_idle))) c
      = (if c = RegisterTx then reqCnt busy_link c else lastCnt io_idle c)" for c
    using t by simp
  have v: "regReqCnt busy_link = 1" "cmdRespCnt busy_link = 0" "dataRespCnt busy_link = 0"
    "lastCmdCnt io_idle = 0" "lastDataCnt io_idle = 0"
    by (simp_all add: busy_link_def write_link_def idle_link_def io_idle_def)
  show ?thesis
    using t l [of RegisterTx] l [of CommandTx] l [of RawData]
    by (simp add: p v)
qed


lemma pending_member:
  "c \<in> set (pending s l) \<longleftrightarrow> lastCnt l c \<noteq> reqCnt s c"
  by (cases c) (auto simp add: pending_def)

text \<open>
  C1, as stated, fails: with a register write pending and the send primitive
  returning \<open>-1\<close>, the pass still sets the last-serviced value to the request
  counter, and the next pass sends nothing.
\<close>

theorem failed_send_counterexample:
  "lastReqCnt io_idle \<noteq> regReqCnt write_link
   \<and> snd (snd (ioHandler_cycle (- 1) write_link io_idle))
       = Some (reg_call True reg_1000 [0, 0, 0, 0, 0, 0, 0, 0])
   \<and> lastReqCnt (fst (snd (ioHandler_cycle (- 1) write_link io_idle)))
       = regReqCnt (fst (ioHandler_cycle (- 1) write_link io_idle))
   \<and> snd (snd (ioHandler_cycle 0 (fst (ioHandler_cycle (- 1) write_link io_idle))
                 (fst (snd (ioHandler_cycle (- 1) write_link io_idle))))) = None"
  by (simp add: ioHandler_cycle_def Let_def write_link_def idle_link_def io_idle_def)

text \<open>
  C1, amended. The transmit thread does not look at what the send primitive returns:
  a pass has the same outcome for every return value, and after a pass that attempts
  a class the last-serviced value of that class equals its request counter, so the
  class is no longer pending and a failed send is not repeated.
\<close>

theorem send_result_ignored:
  "ioHandler_cycle sendRet s l = ioHandler_cycle sendRet' s l
   \<and> (pending s l \<noteq> [] \<longrightarrow>
        snd (snd (ioHandler_cycle sendRet s l)) = Some (class_call s (hd (pending s l)))
        \<and> lastCnt (fst (snd (ioHandler_cycle sendRet s l))) (hd (pending s l))
            = reqCnt (fst (ioHandler_cycle sendRet s l)) (hd (pending s l))
        \<and> hd (pending s l)
            \<notin> set (pending (fst (ioHandler_cycle sendRet s l))
                      (fst (snd (ioHandler_cycle sendRet s l)))))"
proof (intro conjI impI)
  show "ioHandler_cycle sendRet s l = ioHandler_cycle sendRet' s l"
    by (simp add: ioHandler_cycle_def)
next
  assume ne: "pending s l \<noteq> []"
  show "snd (snd (ioHandler_cycle sendRet s l)) = Some (class_call s (hd (pending s l)))"
    unfolding ioHandler_cycle_class [OF ne]
    by (cases "hd (pending s l)") simp_all
  show eq: "lastCnt (fst (snd (ioHandler_cycle sendRet s l))) (hd (pending s l))
      = reqCnt (fst (ioHandler_cycle sendRet s l)) (hd (pending s l))"
    unfolding ioHandler_cycle_class [OF ne]
    by (cases "hd (pending s l)") simp_all
  show "hd (pending s l)
      \<notin> set (pending (fst (ioHandler_cycle sendRet s l))
                (fst (snd (ioHandler_cycle sendRet s l))))"
    by (simp only: pending_member eq simp_thms)
qed

theorem send_result_ignored_witness:
  "ioHandler_cycle (- 1) write_link io_idle = ioHandler_cycle 5 write_link io_idle
   \<and> pending write_link io_idle = [RegisterTx]
   \<and> lastReqCnt (fst (snd (ioHandler_cycle (- 1) write_link io_idle)))
       = regReqCnt (fst (ioHandler_cycle (- 1) write_link io_idle))
   \<and> RegisterTx \<notin> set (pending (fst (ioHandler_cycle (- 1) write_link io_idle))
                          (fst (snd (ioHandler_cycle (- 1) write_link io_idle))))"
proof -
  have p: "pending write_link io_idle = [RegisterTx]"
    by (simp add: pending_def write_link_def idle_link_def io_idle_def)
  then have ne: "pending write_link io_idle \<noteq> []"
    by simp
  note t = send_result_ignored [of "- 1" write_link io_idle 5]
  note a = t [THEN conjunct1]
  note b = t [THEN conjunct2, rule_format, OF ne, unfolded p list.sel lastCnt.simps reqCnt.simps]
  from a b p show ?thesis
    by (intro conjI) (simp_all only: simp_thms)
qed

end
